theory Spec2Isabelle
  imports Main "HOL-Library.AList" "HOL-Library.Sublist"
begin

section \<open>JavaScript values used by the handlers of \<^verbatim>\<open>main.ts\<close>\<close>

text \<open>
  The result of \<^verbatim>\<open>parseInt\<close> is a number that may be \<^verbatim>\<open>NaN\<close>. The allocator
  \<^verbatim>\<open>consulIndex\<close> and the indices copied from it only ever hold integers; they are modelled
  as unbounded \<open>int\<close> (the source counts in IEEE doubles, exact up to \<open>2^53\<close>).
\<close>

datatype jsnum = NaN | Num int

text \<open>
  A query parameter, as \<^verbatim>\<open>c.req.query(name)\<close> returns it: \<^verbatim>\<open>undefined\<close> is \<open>None\<close>.
  A string is truthy unless it is empty.
\<close>

definition truthy :: "string option \<Rightarrow> bool" where
  "truthy q = (case q of None \<Rightarrow> False | Some s \<Rightarrow> s \<noteq> [])"

text \<open>\<^verbatim>\<open>a || b\<close> on two optional strings.\<close>

definition js_or :: "string option \<Rightarrow> string option \<Rightarrow> string option" where
  "js_or a b = (if truthy a then a else b)"

subsection \<open>\<^verbatim>\<open>parseInt\<close> with no radix argument\<close>

text \<open>
  Leading white space is skipped, one sign is read, a \<^verbatim>\<open>0x\<close> or \<^verbatim>\<open>0X\<close> prefix selects
  radix 16, and the longest run of digits of the radix is the value; no digit gives
  \<^verbatim>\<open>NaN\<close>. Characters are bytes here, so of JavaScript's white space only the ASCII
  characters are recognised. The value is the exact integer; the source rounds it to a
  double, which differs only beyond \<open>2^53\<close>.
\<close>

definition is_space :: "char \<Rightarrow> bool" where
  "is_space c = (c = CHR '' '' \<or> (9 \<le> (of_char c :: nat) \<and> (of_char c :: nat) \<le> 13))"

definition digit_val :: "char \<Rightarrow> nat option" where
  "digit_val c =
     (let n = (of_char c :: nat) in
      if 48 \<le> n \<and> n \<le> 57 then Some (n - 48)
      else if 97 \<le> n \<and> n \<le> 122 then Some (n - 87)
      else if 65 \<le> n \<and> n \<le> 90 then Some (n - 55)
      else None)"

definition is_digit :: "nat \<Rightarrow> char \<Rightarrow> bool" where
  "is_digit R c = (case digit_val c of None \<Rightarrow> False | Some d \<Rightarrow> d < R)"

definition digits_value :: "nat \<Rightarrow> string \<Rightarrow> nat" where
  "digits_value R z = foldl (\<lambda>a c. a * R + (case digit_val c of None \<Rightarrow> 0 | Some d \<Rightarrow> d)) 0 z"

fun strip_sign :: "string \<Rightarrow> int \<times> string" where
  "strip_sign [] = (1, [])"
| "strip_sign (c # r) =
     (if c = CHR ''-'' then (- 1, r) else if c = CHR ''+'' then (1, r) else (1, c # r))"

fun strip_prefix :: "string \<Rightarrow> nat \<times> string" where
  "strip_prefix (c # x # r) =
     (if c = CHR ''0'' \<and> (x = CHR ''x'' \<or> x = CHR ''X'') then (16, r) else (10, c # x # r))"
| "strip_prefix s = (10, s)"

definition parseInt :: "string \<Rightarrow> jsnum" where
  "parseInt s =
     (let (sign, s2) = strip_sign (dropWhile is_space s);
          (R, s3) = strip_prefix s2;
          z = takeWhile (is_digit R) s3
      in if z = [] then NaN else Num (sign * int (digits_value R z)))"

text \<open>\<^verbatim>\<open>String.prototype.toLowerCase\<close>, on the ASCII letters.\<close>

definition toLowerCase :: "string \<Rightarrow> string" where
  "toLowerCase s =
     map (\<lambda>c. let n = (of_char c :: nat) in
               if 65 \<le> n \<and> n \<le> 90 then (char_of (n + 32) :: char) else c) s"

section \<open>Data model\<close>

text \<open>
  The two object types of the source. \<^verbatim>\<open>Session.behavior\<close> is declared
  \<^verbatim>\<open>'delete' | 'release'\<close> but holds whatever lower-cased string the request carried;
  \<^verbatim>\<open>ttl\<close> holds what \<^verbatim>\<open>parseInt\<close> returned. \<^verbatim>\<open>lastRenewTime\<close> is the clock reading
  at the call, in milliseconds since the epoch (the source stores its ISO rendering).
  \<^verbatim>\<open>KVPair.session\<close> is optional: \<open>None\<close> is \<^verbatim>\<open>undefined\<close>.
\<close>

record Session =
  sess_id :: string
  sess_name :: "string option"
  behavior :: string
  ttl :: jsnum
  sess_createIndex :: int
  lastRenewTime :: int

record KVPair =
  createIndex :: int
  flags :: jsnum
  key :: string
  lockIndex :: int
  modifyIndex :: int
  kvalue :: string
  session :: "string option"

text \<open>
  The Deno KV store is only ever accessed under the keys \<^verbatim>\<open>['sessions', id]\<close> and
  \<^verbatim>\<open>['kv', key]\<close>: two disjoint key spaces, each modelled as an association list from
  the second key part to the stored object. \<^verbatim>\<open>consulIndex\<close> is the module-level counter.
\<close>

type_synonym 'v table = "(string \<times> 'v) list"

record state =
  sessions :: "Session table"
  kv :: "KVPair table"
  consulIndex :: int

definition initial :: state where
  "initial = \<lparr> sessions = [], kv = [], consulIndex = 1 \<rparr>"

definition kv_get :: "'v table \<Rightarrow> string \<Rightarrow> 'v option" where
  "kv_get t k = map_of t k"

definition kv_set :: "'v table \<Rightarrow> string \<Rightarrow> 'v \<Rightarrow> 'v table" where
  "kv_set t k v = AList.update k v t"

definition kv_delete :: "'v table \<Rightarrow> string \<Rightarrow> 'v table" where
  "kv_delete t k = AList.delete k t"

text \<open>
  \<^verbatim>\<open>kv.list({ prefix: ['kv', ...parts] })\<close>: Deno KV selects the keys that extend the
  prefix by at least one further key part; a key part is matched whole. The keys of the
  table are the tuples \<^verbatim>\<open>['kv', k]\<close>, so \<open>parts\<close> is compared with \<open>[k]\<close>.
\<close>

definition kv_list :: "'v table \<Rightarrow> string list \<Rightarrow> (string \<times> 'v) list" where
  "kv_list t parts = filter (\<lambda>(k, v). strict_prefix parts [k]) t"

datatype error = HTTPException nat string | TypeError

section \<open>Write key: \<^verbatim>\<open>app.put('/v1/kv/*')\<close>\<close>

record put_request =
  put_key :: string
  acquire :: "string option"
  release :: "string option"
  flags_q :: "string option"
  cas :: "string option"
  text_body :: string

text \<open>
  Lines 163--173. \<open>None\<close> means the handler goes on; \<open>Some r\<close> is the early exit.
\<close>

definition check_session :: "state \<Rightarrow> string \<Rightarrow> string option \<Rightarrow> (error + bool) option" where
  "check_session s k sessionId =
     (case sessionId of
        None \<Rightarrow> None
      | Some sid \<Rightarrow>
          if sid = [] then None
          else (case kv_get (sessions s) sid of
                  None \<Rightarrow> Some (Inl (HTTPException 400 ''Invalid session''))
                | Some sess \<Rightarrow>
                    (case kv_get (kv s) k of
                       None \<Rightarrow> None
                     | Some existing \<Rightarrow>
                         if truthy (session existing) \<and> session existing \<noteq> Some sid
                         then Some (Inr False) else None)))"

text \<open>
  Lines 176--181. \<^verbatim>\<open>existing.value?.modifyIndex\<close> is \<^verbatim>\<open>undefined\<close> for an absent key,
  and \<^verbatim>\<open>undefined !== n\<close> holds for every number \<open>n\<close>; \<^verbatim>\<open>NaN\<close> differs from every number.
\<close>

definition check_cas :: "state \<Rightarrow> string \<Rightarrow> string option \<Rightarrow> (error + bool) option" where
  "check_cas s k c =
     (case c of
        None \<Rightarrow> None
      | Some cs \<Rightarrow>
          if cs = [] then None
          else (case kv_get (kv s) k of
                  None \<Rightarrow> Some (Inr False)
                | Some existing \<Rightarrow>
                    if parseInt cs \<noteq> Num (modifyIndex existing) then Some (Inr False) else None))"

definition put :: "state \<Rightarrow> put_request \<Rightarrow> (error + bool) \<times> state" where
  "put s r =
     (let sessionId = js_or (acquire r) (release r);
          flagsv = parseInt (case js_or (flags_q r) (Some ''0'') of Some f \<Rightarrow> f | None \<Rightarrow> ''0'')
      in case check_session s (put_key r) sessionId of
           Some res \<Rightarrow> (res, s)
         | None \<Rightarrow>
             (case check_cas s (put_key r) (cas r) of
                Some res \<Rightarrow> (res, s)
              | None \<Rightarrow>
                  (let idx = consulIndex s + 1;
                       kvPair = \<lparr> createIndex = idx, flags = flagsv, key = put_key r,
                                  lockIndex = 0, modifyIndex = idx, kvalue = text_body r,
                                  session = sessionId \<rparr>
                   in (Inr True,
                       s\<lparr> kv := kv_set (kv s) (put_key r) kvPair, consulIndex := idx \<rparr>))))"

section \<open>Delete key: \<^verbatim>\<open>app.delete('/v1/kv/*')\<close>\<close>

definition delete :: "state \<Rightarrow> string \<Rightarrow> bool \<times> state" where
  "delete s k = (True, s\<lparr> kv := kv_delete (kv s) k \<rparr>)"

section \<open>Sessions\<close>

text \<open>
  The JSON body of a create request. Each field is the string the body carried, or
  \<open>None\<close> when the field is missing (\<^verbatim>\<open>undefined\<close>); fields of other JSON types are
  not modelled. \<^verbatim>\<open>body.Behavior.toLowerCase()\<close> throws a \<^verbatim>\<open>TypeError\<close> on
  \<^verbatim>\<open>undefined\<close>, before the counter is touched; \<^verbatim>\<open>parseInt(undefined)\<close> parses the
  string \<^verbatim>\<open>"undefined"\<close>. The fresh identifier of \<^verbatim>\<open>crypto.randomUUID()\<close> and the
  clock reading are inputs of the model. A request whose body is not JSON fails in
  \<^verbatim>\<open>c.req.json()\<close>, before the handler reads or writes anything.
\<close>

record create_body =
  Name :: "string option"
  Behavior :: "string option"
  TTL :: "string option"

definition create :: "state \<Rightarrow> create_body \<Rightarrow> string \<Rightarrow> int \<Rightarrow> (error + string) \<times> state" where
  "create s body sessionId now =
     (case Behavior body of
        None \<Rightarrow> (Inl TypeError, s)
      | Some b \<Rightarrow>
          (let idx = consulIndex s + 1;
               sess = \<lparr> sess_id = sessionId, sess_name = Name body, behavior = toLowerCase b,
                        ttl = parseInt (case TTL body of None \<Rightarrow> ''undefined'' | Some t \<Rightarrow> t),
                        sess_createIndex = idx, lastRenewTime = now \<rparr>
           in (Inr sessionId,
               s\<lparr> sessions := kv_set (sessions s) sessionId sess, consulIndex := idx \<rparr>)))"

definition renew :: "state \<Rightarrow> string \<Rightarrow> int \<Rightarrow> (error + Session list) \<times> state" where
  "renew s sessionId now =
     (case kv_get (sessions s) sessionId of
        None \<Rightarrow> (Inl (HTTPException 404 ''Session not found''), s)
      | Some sess \<Rightarrow>
          (let sess' = sess\<lparr> lastRenewTime := now \<rparr>
           in (Inr [sess'], s\<lparr> sessions := kv_set (sessions s) sessionId sess' \<rparr>)))"

text \<open>
  The loop of lines 96--100 over \<^verbatim>\<open>kv.list({ prefix: ['kv'] })\<close>: one step per listed
  entry, deleting the entry's key when its \<^verbatim>\<open>session\<close> is the destroyed one.
\<close>

fun cascade :: "string \<Rightarrow> (string \<times> KVPair) list \<Rightarrow> KVPair table \<Rightarrow> KVPair table" where
  "cascade sessionId [] t = t"
| "cascade sessionId ((k, v) # es) t =
     cascade sessionId es (if session v = Some sessionId then kv_delete t k else t)"

definition destroy :: "state \<Rightarrow> string \<Rightarrow> (error + bool) \<times> state" where
  "destroy s sessionId =
     (case kv_get (sessions s) sessionId of
        None \<Rightarrow> (Inl (HTTPException 404 ''Session not found''), s)
      | Some sess \<Rightarrow>
          (let s1 = s\<lparr> sessions := kv_delete (sessions s) sessionId \<rparr>
           in if behavior sess = ''delete''
              then (Inr True, s1\<lparr> kv := cascade sessionId (kv_list (kv s1) []) (kv s1) \<rparr>)
              else (Inr True, s1)))"

section \<open>Read key: \<^verbatim>\<open>app.get('/v1/kv/*')\<close>\<close>

record get_request =
  get_key :: string
  recurse :: "string option"
  index :: "string option"
  wait :: "string option"
  stale :: "string option"

text \<open>
  A response: the status, the \<^verbatim>\<open>X-Consul-Index\<close> header (\<open>None\<close> when the handler does
  not set it; the header text is the decimal rendering of the number), the JSON array of the
  body, and the delay handed to \<^verbatim>\<open>setTimeout\<close> before the response is sent (\<open>None\<close> when
  the handler does not sleep). The body is computed from the state read before the sleep.
\<close>

record response =
  status :: nat
  X_Consul_Index :: "int option"
  json :: "KVPair list"
  slept :: "jsnum option"

text \<open>
  \<^verbatim>\<open>index && parseInt(index) === value.value.modifyIndex\<close>, and the delay of
  \<^verbatim>\<open>if (wait) await new Promise(resolve => setTimeout(resolve, parseInt(wait)))\<close>.
\<close>

definition index_matches :: "string option \<Rightarrow> int \<Rightarrow> bool" where
  "index_matches i m = (case i of None \<Rightarrow> False | Some t \<Rightarrow> t \<noteq> [] \<and> parseInt t = Num m)"

definition wait_delay :: "string option \<Rightarrow> jsnum option" where
  "wait_delay w = (case w of None \<Rightarrow> None | Some t \<Rightarrow> if t = [] then None else Some (parseInt t))"

definition get :: "state \<Rightarrow> get_request \<Rightarrow> response" where
  "get s q =
     (if recurse q = Some ''true''
      then (let results = map snd (kv_list (kv s) [get_key q])
            in if results = []
               then \<lparr> status = 404, X_Consul_Index = None, json = [], slept = None \<rparr>
               else \<lparr> status = 200, X_Consul_Index = Some (consulIndex s), json = results,
                      slept = None \<rparr>)
      else (case kv_get (kv s) (get_key q) of
              None \<Rightarrow> \<lparr> status = 404, X_Consul_Index = None, json = [], slept = None \<rparr>
            | Some v \<Rightarrow>
                if index_matches (index q) (modifyIndex v) \<and> stale q \<noteq> Some ''true''
                then \<lparr> status = 200, X_Consul_Index = None, json = [v],
                       slept = wait_delay (wait q) \<rparr>
                else \<lparr> status = 200, X_Consul_Index = Some (consulIndex s), json = [v],
                       slept = None \<rparr>))"

section \<open>States of a run\<close>

text \<open>
  The states the handlers reach from the empty store, one request at a time, and the
  bound every stored index obeys there: no entry is newer than the allocator. A store
  that already holds entries when the module is loaded, and \<^verbatim>\<open>consulIndex\<close> starts at 1
  again, is not among these states.
\<close>

inductive reachable :: "state \<Rightarrow> bool" where
  r_init: "reachable initial"
| r_put: "reachable s \<Longrightarrow> reachable (snd (put s r))"
| r_delete: "reachable s \<Longrightarrow> reachable (snd (delete s k))"
| r_create: "reachable s \<Longrightarrow> reachable (snd (create s body sessionId now))"
| r_renew: "reachable s \<Longrightarrow> reachable (snd (renew s sessionId now))"
| r_destroy: "reachable s \<Longrightarrow> reachable (snd (destroy s sessionId))"

definition index_bounded :: "state \<Rightarrow> bool" where
  "index_bounded s = list_all (\<lambda>(k, e). modifyIndex e \<le> consulIndex s) (kv s)"

text \<open>The object built at lines 183--191 when both checks of a put have passed.\<close>

definition stored :: "state \<Rightarrow> put_request \<Rightarrow> KVPair" where
  "stored s r =
     \<lparr> createIndex = consulIndex s + 1,
       flags = parseInt (case js_or (flags_q r) (Some ''0'') of Some f \<Rightarrow> f | None \<Rightarrow> ''0''),
       key = put_key r, lockIndex = 0, modifyIndex = consulIndex s + 1,
       kvalue = text_body r, session = js_or (acquire r) (release r) \<rparr>"

section \<open>Example runs\<close>

text \<open>
  Requests and the states they lead to from the empty store, used to evaluate the
  handlers on concrete inputs.
\<close>

definition plain_put :: "string \<Rightarrow> string \<Rightarrow> put_request" where
  "plain_put k v =
     \<lparr> put_key = k, acquire = None, release = None, flags_q = None, cas = None, text_body = v \<rparr>"

definition plain_get :: "string \<Rightarrow> get_request" where
  "plain_get k = \<lparr> get_key = k, recurse = None, index = None, wait = None, stale = None \<rparr>"

text \<open>After \<^verbatim>\<open>PUT /v1/kv/b\<close> with body \<^verbatim>\<open>1\<close>: the entry has \<^verbatim>\<open>modifyIndex\<close> 2.\<close>

definition run_written :: state where
  "run_written = snd (put initial (plain_put ''b'' ''1''))"

text \<open>After creating session \<^verbatim>\<open>S1\<close> with the given behavior and a TTL of 10, at time 0.\<close>

definition run_session :: "string \<Rightarrow> state" where
  "run_session b =
     snd (create initial \<lparr> Name = Some ''worker'', Behavior = Some b, TTL = Some ''10'' \<rparr>
            ''S1'' 0)"

text \<open>Then \<^verbatim>\<open>PUT /v1/kv/a?acquire=S1\<close>: the entry is held by \<^verbatim>\<open>S1\<close>.\<close>

definition run_locked :: "string \<Rightarrow> state" where
  "run_locked b = snd (put (run_session b) ((plain_put ''a'' ''1'')\<lparr> acquire := Some ''S1'' \<rparr>))"

text \<open>The success value of a handler's result, if it has one.\<close>

definition projr_opt :: "'e + 'a \<Rightarrow> 'a option" where
  "projr_opt x = (case x of Inl e \<Rightarrow> None | Inr a \<Rightarrow> Some a)"

text \<open>Requests used below.\<close>

definition cas_put :: "string \<Rightarrow> string \<Rightarrow> string \<Rightarrow> put_request" where
  "cas_put k c v = (plain_put k v)\<lparr> cas := Some c \<rparr>"

definition acquire_put :: "string \<Rightarrow> string \<Rightarrow> string \<Rightarrow> put_request" where
  "acquire_put k tok v = (plain_put k v)\<lparr> acquire := Some tok \<rparr>"

definition blocking_get :: "string \<Rightarrow> string \<Rightarrow> get_request" where
  "blocking_get k i = (plain_get k)\<lparr> index := Some i \<rparr>"

section \<open>Facts about the store and the checks\<close>

lemma in_set_update:
  "(k', v') \<in> set (AList.update k v t) \<Longrightarrow> (k', v') = (k, v) \<or> (k', v') \<in> set t"
  by (induction t) (auto split: if_splits)

lemma in_set_delete: "x \<in> set (AList.delete k t) \<Longrightarrow> x \<in> set t"
  by (auto simp: AList.delete_eq)

lemma in_set_cascade: "x \<in> set (cascade sid es t) \<Longrightarrow> x \<in> set t"
  by (induction sid es t rule: cascade.induct)
     (auto simp: kv_delete_def dest: in_set_delete split: if_splits)

lemma kv_get_set: "kv_get (kv_set t k v) k' = (if k' = k then Some v else kv_get t k')"
  by (simp add: kv_get_def kv_set_def update_conv')

lemma kv_get_delete: "kv_get (kv_delete t k) k' = (if k' = k then None else kv_get t k')"
  by (simp add: kv_get_def kv_delete_def delete_conv')

lemma kv_list_all: "kv_list t [] = t"
  by (induction t) (auto simp: kv_list_def)

lemma parseInt_Nil: "parseInt [] = NaN"
  by (simp add: parseInt_def)

lemma put_cases:
  "put s r =
     (if check_session s (put_key r) (js_or (acquire r) (release r)) = None
         \<and> check_cas s (put_key r) (cas r) = None
      then (Inr True, s\<lparr> kv := kv_set (kv s) (put_key r) (stored s r),
                         consulIndex := consulIndex s + 1 \<rparr>)
      else (case check_session s (put_key r) (js_or (acquire r) (release r)) of
              Some res \<Rightarrow> res | None \<Rightarrow> the (check_cas s (put_key r) (cas r)), s))"
  by (auto simp: put_def Let_def stored_def split: option.splits)

lemma check_session_None_iff:
  "check_session s k t = None \<longleftrightarrow>
     \<not> truthy t
     \<or> (kv_get (sessions s) (the t) \<noteq> None
        \<and> (case kv_get (kv s) k of
              None \<Rightarrow> True
            | Some existing \<Rightarrow> \<not> truthy (session existing) \<or> session existing = t))"
  by (auto simp: check_session_def truthy_def split: option.splits)

lemma check_session_not_True: "check_session s k t \<noteq> Some (Inr True)"
  by (auto simp: check_session_def split: option.splits)

lemma check_cas_result: "check_cas s k c = None \<or> check_cas s k c = Some (Inr False)"
  by (auto simp: check_cas_def split: option.splits)

lemma put_True_iff:
  "fst (put s r) = Inr True \<longleftrightarrow>
     check_session s (put_key r) (js_or (acquire r) (release r)) = None
     \<and> check_cas s (put_key r) (cas r) = None"
  using check_session_not_True [of s "put_key r" "js_or (acquire r) (release r)"]
        check_cas_result [of s "put_key r" "cas r"]
  by (auto simp: put_cases split: option.splits)

lemma put_True_state:
  "fst (put s r) = Inr True \<Longrightarrow>
     snd (put s r) = s\<lparr> kv := kv_set (kv s) (put_key r) (stored s r),
                        consulIndex := consulIndex s + 1 \<rparr>"
proof -
  assume "fst (put s r) = Inr True"
  then have "check_session s (put_key r) (js_or (acquire r) (release r)) = None
     \<and> check_cas s (put_key r) (cas r) = None"
    by (simp only: put_True_iff)
  then show ?thesis by (simp add: put_cases)
qed

lemma put_True_entry:
  "fst (put s r) = Inr True \<Longrightarrow> kv_get (kv (snd (put s r))) (put_key r) = Some (stored s r)"
  by (simp add: put_True_state kv_get_set)

subsection \<open>No stored index is ahead of the allocator\<close>

lemma index_bounded_get:
  "index_bounded s \<Longrightarrow> kv_get (kv s) k = Some e \<Longrightarrow> modifyIndex e \<le> consulIndex s"
  by (auto simp: index_bounded_def kv_get_def list_all_iff dest!: map_of_SomeD)

lemma index_bounded_put: "index_bounded s \<Longrightarrow> index_bounded (snd (put s r))"
  by (fastforce simp: index_bounded_def put_def Let_def list_all_iff kv_set_def
      dest: in_set_update split: option.splits)

lemma index_bounded_delete: "index_bounded s \<Longrightarrow> index_bounded (snd (delete s k))"
  by (auto simp: index_bounded_def delete_def list_all_iff kv_delete_def dest: in_set_delete)

lemma index_bounded_create: "index_bounded s \<Longrightarrow> index_bounded (snd (create s b u n))"
  by (fastforce simp: index_bounded_def create_def Let_def list_all_iff split: option.splits)

lemma index_bounded_renew: "index_bounded s \<Longrightarrow> index_bounded (snd (renew s u n))"
  by (auto simp: index_bounded_def renew_def Let_def list_all_iff split: option.splits)

lemma index_bounded_destroy: "index_bounded s \<Longrightarrow> index_bounded (snd (destroy s u))"
  by (auto simp: index_bounded_def destroy_def Let_def list_all_iff
      dest: in_set_cascade split: option.splits)

lemma reachable_index_bounded: "reachable s \<Longrightarrow> index_bounded s"
proof (induction rule: reachable.induct)
  case r_init
  show ?case by (simp add: index_bounded_def initial_def)
qed (simp_all add: index_bounded_put index_bounded_delete index_bounded_create
       index_bounded_renew index_bounded_destroy)

lemma run_written_reachable: "reachable run_written"
  unfolding run_written_def by (intro r_put r_init)

lemma run_locked_reachable: "reachable (run_locked b)"
  unfolding run_locked_def run_session_def by (intro r_put r_create r_init)

subsection \<open>Destroying a session\<close>

lemma destroy_removes_session:
  "kv_get (sessions s) sid = Some sess \<Longrightarrow>
     fst (destroy s sid) = Inr True \<and> kv_get (sessions (snd (destroy s sid))) sid = None"
  by (simp add: destroy_def Let_def kv_get_delete)

lemma cascade_keeps_absent: "kv_get t k = None \<Longrightarrow> kv_get (cascade sid es t) k = None"
  by (induction sid es t rule: cascade.induct) (simp_all add: kv_get_delete)

lemma cascade_removes:
  "(k, v) \<in> set es \<Longrightarrow> session v = Some sid \<Longrightarrow> kv_get (cascade sid es t) k = None"
proof (induction sid es t rule: cascade.induct)
  case (1 sessionId t)
  then show ?case by simp
next
  case (2 sessionId k' v' es t)
  show ?case
  proof (cases "(k, v) = (k', v')")
    case True
    have "kv_get (kv_delete t k') k' = None" by (simp add: kv_get_delete)
    then have "kv_get (cascade sessionId es (kv_delete t k')) k' = None"
      by (rule cascade_keeps_absent)
    with True "2.prems" show ?thesis by simp
  next
    case False
    with "2.prems" have "(k, v) \<in> set es" by auto
    with "2.IH" "2.prems" show ?thesis by simp
  qed
qed

lemma destroy_delete_removes_held:
  assumes "kv_get (sessions s) sid = Some sess" and "behavior sess = ''delete''"
    and "kv_get (kv s) k = Some e" and "session e = Some sid"
  shows "kv_get (kv (snd (destroy s sid))) k = None"
proof -
  from assms(3) have "(k, e) \<in> set (kv s)"
    by (simp add: kv_get_def map_of_SomeD)
  then show ?thesis
    using assms(1,2,4) by (simp add: destroy_def Let_def kv_list_all cascade_removes)
qed

lemma destroy_other_keeps_kv:
  "kv_get (sessions s) sid = Some sess \<Longrightarrow> behavior sess \<noteq> ''delete'' \<Longrightarrow>
     kv (snd (destroy s sid)) = kv s"
  by (simp add: destroy_def Let_def)

subsection \<open>Reads that carry the index\<close>

lemma get_found_carries_index:
  assumes "recurse q \<noteq> Some ''true''" and "kv_get (kv s) (get_key q) = Some e"
    and "\<not> index_matches (index q) (modifyIndex e) \<or> stale q = Some ''true''"
  shows "get s q = \<lparr> status = 200, X_Consul_Index = Some (consulIndex s), json = [e],
                     slept = None \<rparr>"
  using assms by (auto simp: get_def)

lemma get_blocking_no_index:
  assumes "recurse q \<noteq> Some ''true''" and "kv_get (kv s) (get_key q) = Some e"
    and "index_matches (index q) (modifyIndex e)" and "stale q \<noteq> Some ''true''"
  shows "get s q = \<lparr> status = 200, X_Consul_Index = None, json = [e],
                     slept = wait_delay (wait q) \<rparr>"
  using assms by (simp add: get_def)

text \<open>
  Every key of the table is the two-part tuple \<^verbatim>\<open>['kv', k]\<close>, and a prefix
  \<^verbatim>\<open>['kv', prefix]\<close> selects only keys with a further part: the recursive read lists
  nothing and answers 404.
\<close>

lemma kv_list_part: "kv_list t [p] = []"
  by (induction t) (auto simp: kv_list_def)

lemma get_recurse_finds_nothing:
  "recurse q = Some ''true'' \<Longrightarrow>
     get s q = \<lparr> status = 404, X_Consul_Index = None, json = [], slept = None \<rparr>"
  by (simp add: get_def kv_list_part)

lemma get_not_found_no_index: "status (get s q) = 404 \<Longrightarrow> X_Consul_Index (get s q) = None"
  by (auto simp: get_def Let_def split: if_splits option.splits)

section \<open>The claims\<close>

subsection \<open>C1: compare-and-swap\<close>

text \<open>
  C1 as stated: a put carrying \<open>casIndex = X\<close> succeeds also when the key is absent and
  \<open>X = 0\<close>. On the empty store the put of key \<^verbatim>\<open>a\<close> with \<^verbatim>\<open>cas=0\<close> returns false:
  the query string \<^verbatim>\<open>"0"\<close> is truthy, and the absent entry's index is \<^verbatim>\<open>undefined\<close>.
\<close>

theorem cas_zero_on_absent_key_fails:
  "kv_get (kv initial) ''a'' = None \<and> parseInt ''0'' = Num 0
   \<and> fst (put initial (cas_put ''a'' ''0'' ''v'')) = Inr False"
  by code_simp

text \<open>
  C1, amended: a put carrying \<open>cas = X\<close> that passes the session check (no token, or a
  registered token and no other holder) returns true if and only if the key has an entry
  whose \<open>modifyIndex\<close> is \<open>X\<close>; on an absent key it returns false for every \<open>X\<close>. When it
  returns true the new \<open>modifyIndex\<close> differs from \<open>X\<close>, in every state where no stored
  index is ahead of the allocator.
\<close>

theorem put_cas_succeeds_iff:
  assumes c: "cas r = Some c" and X: "parseInt c = Num X"
    and chk: "check_session s (put_key r) (js_or (acquire r) (release r)) = None"
    and bnd: "index_bounded s"
  shows "(fst (put s r) = Inr True \<longleftrightarrow>
            (\<exists>e. kv_get (kv s) (put_key r) = Some e \<and> modifyIndex e = X))
       \<and> (fst (put s r) = Inr True \<longrightarrow>
            (\<exists>e'. kv_get (kv (snd (put s r))) (put_key r) = Some e' \<and> modifyIndex e' \<noteq> X))"
proof -
  from X have ne: "c \<noteq> []" by (auto simp: parseInt_Nil)
  have iff: "fst (put s r) = Inr True \<longleftrightarrow>
               (\<exists>e. kv_get (kv s) (put_key r) = Some e \<and> modifyIndex e = X)"
    using c X ne chk by (auto simp: put_True_iff check_cas_def split: option.splits)
  have new: "\<exists>e'. kv_get (kv (snd (put s r))) (put_key r) = Some e' \<and> modifyIndex e' \<noteq> X"
    if ok: "fst (put s r) = Inr True"
  proof -
    from ok iff obtain e where e: "kv_get (kv s) (put_key r) = Some e" "modifyIndex e = X"
      by blast
    from index_bounded_get [OF bnd e(1)] e(2) have "X \<le> consulIndex s" by simp
    then have "modifyIndex (stored s r) \<noteq> X" by (simp add: stored_def)
    with put_True_entry [OF ok] show ?thesis by blast
  qed
  from iff new show ?thesis by blast
qed

theorem put_cas_succeeds_iff_witness:
  "cas (cas_put ''b'' ''2'' ''v'') = Some ''2'' \<and> parseInt ''2'' = Num 2
   \<and> check_session run_written (put_key (cas_put ''b'' ''2'' ''v''))
        (js_or (acquire (cas_put ''b'' ''2'' ''v'')) (release (cas_put ''b'' ''2'' ''v''))) = None
   \<and> index_bounded run_written
   \<and> fst (put run_written (cas_put ''b'' ''2'' ''v'')) = Inr True
   \<and> (\<exists>e'. kv_get (kv (snd (put run_written (cas_put ''b'' ''2'' ''v''))))
              (put_key (cas_put ''b'' ''2'' ''v'')) = Some e' \<and> modifyIndex e' \<noteq> 2)"
proof -
  have h1: "cas (cas_put ''b'' ''2'' ''v'') = Some ''2''" by code_simp
  have h2: "parseInt ''2'' = Num 2" by code_simp
  have h3: "check_session run_written (put_key (cas_put ''b'' ''2'' ''v''))
        (js_or (acquire (cas_put ''b'' ''2'' ''v'')) (release (cas_put ''b'' ''2'' ''v''))) = None"
    by code_simp
  have h4: "index_bounded run_written" by code_simp
  have ok: "fst (put run_written (cas_put ''b'' ''2'' ''v'')) = Inr True" by code_simp
  from put_cas_succeeds_iff [OF h1 h2 h3 h4] h1 h2 h3 h4 ok show ?thesis by blast
qed

subsection \<open>C2: the lock holder after a successful put\<close>

text \<open>
  C2 as stated: when neither token is provided the stored \<open>lockHolder\<close> is the same as
  before the put. The entry \<^verbatim>\<open>a\<close> is held by \<^verbatim>\<open>S1\<close>; a put with no token succeeds and
  the stored entry has no holder, because the handler stores a wholly new object whose
  \<^verbatim>\<open>session\<close> is the request's token.
\<close>

theorem plain_put_clears_lockHolder:
  "map_option session (kv_get (kv (run_locked ''delete'')) ''a'') = Some (Some ''S1'')
   \<and> fst (put (run_locked ''delete'') (plain_put ''a'' ''2'')) = Inr True
   \<and> map_option session
        (kv_get (kv (snd (put (run_locked ''delete'') (plain_put ''a'' ''2'')))) ''a'')
      = Some None"
  by code_simp

text \<open>
  C2, amended: after every successful put the key has an entry; if a non-empty
  lock-acquire token was provided its \<open>lockHolder\<close> equals that token, and if neither
  token was provided it has no \<open>lockHolder\<close>, whatever the entry held before.
\<close>

theorem put_success_lockHolder:
  assumes "fst (put s r) = Inr True"
  shows "\<exists>e. kv_get (kv (snd (put s r))) (put_key r) = Some e
           \<and> (truthy (acquire r) \<longrightarrow> session e = acquire r)
           \<and> (acquire r = None \<and> release r = None \<longrightarrow> session e = None)"
  using put_True_entry [OF assms] by (auto simp: stored_def js_or_def truthy_def)

theorem put_success_lockHolder_witness:
  "fst (put (run_session ''delete'') (acquire_put ''a'' ''S1'' ''1'')) = Inr True
   \<and> truthy (acquire (acquire_put ''a'' ''S1'' ''1''))
   \<and> (\<exists>e. kv_get (kv (snd (put (run_session ''delete'') (acquire_put ''a'' ''S1'' ''1''))))
             (put_key (acquire_put ''a'' ''S1'' ''1'')) = Some e
          \<and> session e = acquire (acquire_put ''a'' ''S1'' ''1''))"
proof -
  have ok: "fst (put (run_session ''delete'') (acquire_put ''a'' ''S1'' ''1'')) = Inr True"
    by code_simp
  have tok: "truthy (acquire (acquire_put ''a'' ''S1'' ''1''))" by code_simp
  from put_success_lockHolder [OF ok] ok tok show ?thesis by blast
qed

subsection \<open>C3: destroying a session\<close>

text \<open>
  C3 at a session whose behavior is Release: \<^verbatim>\<open>S1\<close> is created with behavior
  \<^verbatim>\<open>Release\<close> and acquires key \<^verbatim>\<open>a\<close>. Destroying \<^verbatim>\<open>S1\<close> returns true and removes
  the session, and the entry \<^verbatim>\<open>a\<close> is still there, still held by \<^verbatim>\<open>S1\<close>: the handler
  has a branch for \<^verbatim>\<open>delete\<close> only.
\<close>

theorem destroy_release_keeps_lockHolder:
  "map_option behavior (kv_get (sessions (run_locked ''Release'')) ''S1'') = Some ''release''
   \<and> map_option session (kv_get (kv (run_locked ''Release'')) ''a'') = Some (Some ''S1'')
   \<and> fst (destroy (run_locked ''Release'') ''S1'') = Inr True
   \<and> kv_get (sessions (snd (destroy (run_locked ''Release'') ''S1''))) ''S1'' = None
   \<and> map_option kvalue (kv_get (kv (snd (destroy (run_locked ''Release'') ''S1''))) ''a'')
      = Some ''1''
   \<and> map_option session (kv_get (kv (snd (destroy (run_locked ''Release'') ''S1''))) ''a'')
      = Some (Some ''S1'')"
  by code_simp

subsection \<open>C4: indices of an entry that is written again\<close>

text \<open>
  C4 as stated: a later successful put leaves \<open>createIndex\<close> as it was at the first write.
  Key \<^verbatim>\<open>b\<close> is first written with \<open>createIndex\<close> 2; the second put succeeds and the
  entry's \<open>createIndex\<close> is 3.
\<close>

theorem second_put_changes_createIndex:
  "map_option createIndex (kv_get (kv run_written) ''b'') = Some 2
   \<and> fst (put run_written (plain_put ''b'' ''2'')) = Inr True
   \<and> map_option createIndex
        (kv_get (kv (snd (put run_written (plain_put ''b'' ''2'')))) ''b'') = Some 3"
  by code_simp

text \<open>
  C4, amended: for every key that already has an entry, in a state where no stored index is
  ahead of the allocator, every successful put strictly increases the entry's
  \<open>modifyIndex\<close>, to the allocator's next value, and sets \<open>createIndex\<close> to that same
  new value.
\<close>

theorem put_existing_indices:
  assumes "index_bounded s" and "kv_get (kv s) (put_key r) = Some e"
    and "fst (put s r) = Inr True"
  shows "\<exists>e'. kv_get (kv (snd (put s r))) (put_key r) = Some e'
            \<and> modifyIndex e < modifyIndex e'
            \<and> modifyIndex e' = consulIndex s + 1
            \<and> createIndex e' = modifyIndex e'"
  using put_True_entry [OF assms(3)] index_bounded_get [OF assms(1,2)]
  by (simp add: stored_def)

theorem put_existing_indices_witness:
  "index_bounded run_written
   \<and> kv_get (kv run_written) (put_key (plain_put ''b'' ''2''))
      = Some \<lparr> createIndex = 2, flags = Num 0, key = ''b'', lockIndex = 0, modifyIndex = 2,
                kvalue = ''1'', session = None \<rparr>
   \<and> fst (put run_written (plain_put ''b'' ''2'')) = Inr True
   \<and> (\<exists>e'. kv_get (kv (snd (put run_written (plain_put ''b'' ''2''))))
              (put_key (plain_put ''b'' ''2'')) = Some e'
          \<and> 2 < modifyIndex e' \<and> modifyIndex e' = consulIndex run_written + 1
          \<and> createIndex e' = modifyIndex e')"
proof -
  have h1: "index_bounded run_written" by code_simp
  have h2: "kv_get (kv run_written) (put_key (plain_put ''b'' ''2''))
      = Some \<lparr> createIndex = 2, flags = Num 0, key = ''b'', lockIndex = 0, modifyIndex = 2,
                kvalue = ''1'', session = None \<rparr>" by code_simp
  have h3: "fst (put run_written (plain_put ''b'' ''2'')) = Inr True" by code_simp
  from put_existing_indices [OF h1 h2 h3] h1 h2 h3 show ?thesis by simp
qed

subsection \<open>C5: sessions past their TTL\<close>

text \<open>
  C5 as stated: once \<open>lastRenewTime + ttl\<close> has passed, renew fails with NotFound and a put
  that acquires with the session is rejected. Session \<^verbatim>\<open>S1\<close> has a TTL of 10 seconds and
  was last renewed at time 0; at time 1000000 ms the renew succeeds, and a put with
  \<^verbatim>\<open>acquire=S1\<close> returns true.
\<close>

theorem expired_session_still_usable:
  "map_option ttl (kv_get (sessions (run_session ''delete'')) ''S1'') = Some (Num 10)
   \<and> map_option lastRenewTime (kv_get (sessions (run_session ''delete'')) ''S1'') = Some 0
   \<and> (0::int) + 10 * 1000 < 1000000
   \<and> map_option (map lastRenewTime)
        (projr_opt (fst (renew (run_session ''delete'') ''S1'' 1000000))) = Some [1000000]
   \<and> fst (put (run_session ''delete'') (acquire_put ''a'' ''S1'' ''1'')) = Inr True"
  by code_simp

text \<open>
  C5, amended: a renew fails with NotFound exactly when the session is not in the registry
  (never created, or destroyed), and a put carrying a non-empty lock-acquire token is
  rejected as an invalid session exactly when the token is not in the registry. Neither
  handler reads \<open>ttl\<close> or \<open>lastRenewTime\<close>: a session stays renewable and usable however
  long ago it was last renewed.
\<close>

theorem expiry_never_checked:
  "(fst (renew s sessionId now) = Inl (HTTPException 404 ''Session not found'')
      \<longleftrightarrow> kv_get (sessions s) sessionId = None)
   \<and> (acquire r = Some sessionId \<and> sessionId \<noteq> [] \<longrightarrow>
        (fst (put s r) = Inl (HTTPException 400 ''Invalid session'')
           \<longleftrightarrow> kv_get (sessions s) sessionId = None))"
proof -
  have a: "fst (renew s sessionId now) = Inl (HTTPException 404 ''Session not found'')
      \<longleftrightarrow> kv_get (sessions s) sessionId = None"
    by (simp add: renew_def Let_def split: option.splits)
  have b: "fst (put s r) = Inl (HTTPException 400 ''Invalid session'')
           \<longleftrightarrow> kv_get (sessions s) sessionId = None"
    if "acquire r = Some sessionId" "sessionId \<noteq> []"
    using that check_cas_result [of s "put_key r" "cas r"]
    by (auto simp: put_cases js_or_def truthy_def check_session_def split: option.splits)
  from a b show ?thesis by blast
qed

theorem expiry_never_checked_witness:
  "acquire (acquire_put ''a'' ''S1'' ''1'') = Some ''S1'' \<and> ''S1'' \<noteq> []
   \<and> kv_get (sessions (run_session ''delete'')) ''S1'' \<noteq> None
   \<and> fst (renew (run_session ''delete'') ''S1'' 1000000)
       \<noteq> Inl (HTTPException 404 ''Session not found'')
   \<and> fst (put (run_session ''delete'') (acquire_put ''a'' ''S1'' ''1''))
       \<noteq> Inl (HTTPException 400 ''Invalid session'')"
proof -
  have h1: "acquire (acquire_put ''a'' ''S1'' ''1'') = Some ''S1''" by code_simp
  have h2: "kv_get (sessions (run_session ''delete'')) ''S1'' \<noteq> None" by code_simp
  from expiry_never_checked
         [of "run_session ''delete''" "''S1''" 1000000 "acquire_put ''a'' ''S1'' ''1''"]
       h1 h2
  show ?thesis by simp
qed

subsection \<open>C6: a put that does not succeed changes nothing\<close>

text \<open>
  C6: for every put that returns false (lock conflict or CAS mismatch) or is rejected with
  an error, the whole state after the put is the state before it: every entry, every
  session and the allocator.
\<close>

theorem put_failure_leaves_state:
  "fst (put s r) \<noteq> Inr True \<Longrightarrow> snd (put s r) = s"
  by (auto simp: put_cases split: if_splits)

theorem put_failure_leaves_state_witness:
  "fst (put run_written (cas_put ''b'' ''7'' ''v'')) = Inr False
   \<and> fst (put run_written (cas_put ''b'' ''7'' ''v'')) \<noteq> Inr True
   \<and> snd (put run_written (cas_put ''b'' ''7'' ''v'')) = run_written"
proof -
  have h: "fst (put run_written (cas_put ''b'' ''7'' ''v'')) = Inr False" by code_simp
  then have h': "fst (put run_written (cas_put ''b'' ''7'' ''v'')) \<noteq> Inr True" by simp
  from put_failure_leaves_state [OF h'] h h' show ?thesis by simp
qed

subsection \<open>C8: session creation\<close>

text \<open>
  C8 as stated: a behavior outside Delete and Release, or a negative TTL, makes creation
  fail with InvalidArgument and mutate nothing. A request with behavior \<^verbatim>\<open>foo\<close> and TTL
  \<^verbatim>\<open>-5\<close> returns the new id, stores the session with that behavior and that TTL, and
  advances the allocator.
\<close>

theorem create_accepts_malformed_input:
  "fst (create initial \<lparr> Name = Some ''n'', Behavior = Some ''foo'', TTL = Some ''-5'' \<rparr>
          ''S1'' 0) = Inr ''S1''
   \<and> map_option behavior
        (kv_get (sessions (snd (create initial
           \<lparr> Name = Some ''n'', Behavior = Some ''foo'', TTL = Some ''-5'' \<rparr> ''S1'' 0))) ''S1'')
      = Some ''foo''
   \<and> map_option ttl
        (kv_get (sessions (snd (create initial
           \<lparr> Name = Some ''n'', Behavior = Some ''foo'', TTL = Some ''-5'' \<rparr> ''S1'' 0))) ''S1'')
      = Some (Num (- 5))
   \<and> consulIndex initial = 1
   \<and> consulIndex (snd (create initial
        \<lparr> Name = Some ''n'', Behavior = Some ''foo'', TTL = Some ''-5'' \<rparr> ''S1'' 0)) = 2"
  by code_simp

text \<open>
  C8, amended: session creation validates neither the behavior nor the TTL. For every
  behavior string and every TTL it returns the generated session id, advances the
  allocator by one and stores the session under that id with the behavior lower-cased,
  the TTL as \<^verbatim>\<open>parseInt\<close> reads it and \<open>createIndex\<close> the new index. It fails only when
  the body has no \<^verbatim>\<open>Behavior\<close> string, with a \<^verbatim>\<open>TypeError\<close>, and then mutates no state.
\<close>

theorem create_never_validates:
  "(Behavior body = Some b \<longrightarrow>
      fst (create s body sessionId now) = Inr sessionId
      \<and> consulIndex (snd (create s body sessionId now)) = consulIndex s + 1
      \<and> (\<exists>sess. kv_get (sessions (snd (create s body sessionId now))) sessionId = Some sess
            \<and> behavior sess = toLowerCase b
            \<and> ttl sess = parseInt (case TTL body of None \<Rightarrow> ''undefined'' | Some t \<Rightarrow> t)
            \<and> sess_createIndex sess = consulIndex s + 1))
   \<and> (Behavior body = None \<longrightarrow> create s body sessionId now = (Inl TypeError, s))"
  by (simp add: create_def Let_def kv_get_set)

theorem create_never_validates_witness:
  "Behavior \<lparr> Name = Some ''n'', Behavior = Some ''DeLeTe'', TTL = Some ''30s'' \<rparr>
     = Some ''DeLeTe''
   \<and> toLowerCase ''DeLeTe'' = ''delete'' \<and> parseInt ''30s'' = Num 30
   \<and> fst (create initial \<lparr> Name = Some ''n'', Behavior = Some ''DeLeTe'', TTL = Some ''30s'' \<rparr>
            ''S1'' 0) = Inr ''S1''
   \<and> (\<exists>sess. kv_get (sessions (snd (create initial
                 \<lparr> Name = Some ''n'', Behavior = Some ''DeLeTe'', TTL = Some ''30s'' \<rparr>
                 ''S1'' 0))) ''S1'' = Some sess
          \<and> behavior sess = ''delete'' \<and> ttl sess = Num 30)
   \<and> Behavior \<lparr> Name = None, Behavior = None, TTL = None \<rparr> = None
   \<and> create initial \<lparr> Name = None, Behavior = None, TTL = None \<rparr> ''S1'' 0
       = (Inl TypeError, initial)"
proof -
  have h1: "Behavior \<lparr> Name = Some ''n'', Behavior = Some ''DeLeTe'', TTL = Some ''30s'' \<rparr>
     = Some ''DeLeTe''" by simp
  have h2: "toLowerCase ''DeLeTe'' = ''delete''" by code_simp
  have h3: "parseInt ''30s'' = Num 30" by code_simp
  have h4: "Behavior \<lparr> Name = None, Behavior = None, TTL = None \<rparr> = None" by simp
  from create_never_validates
         [of "\<lparr> Name = Some ''n'', Behavior = Some ''DeLeTe'', TTL = Some ''30s'' \<rparr>"
             "''DeLeTe''" initial "''S1''" 0]
       create_never_validates
         [of "\<lparr> Name = None, Behavior = None, TTL = None \<rparr>" "''x''" initial "''S1''" 0]
       h1 h2 h3 h4
  show ?thesis by auto
qed

subsection \<open>C9: the index that accompanies a read\<close>

text \<open>
  C9 at a blocking read: key \<^verbatim>\<open>b\<close> has \<open>modifyIndex\<close> 2 and the allocator stands at 2.
  The read with \<^verbatim>\<open>index=2\<close> answers 200 with the entry and without the
  \<^verbatim>\<open>X-Consul-Index\<close> header, while the same read without \<^verbatim>\<open>index\<close> carries it.
\<close>

theorem blocking_get_omits_index:
  "consulIndex run_written = 2
   \<and> map_option modifyIndex (kv_get (kv run_written) ''b'') = Some 2
   \<and> status (get run_written (blocking_get ''b'' ''2'')) = 200
   \<and> map modifyIndex (json (get run_written (blocking_get ''b'' ''2''))) = [2]
   \<and> X_Consul_Index (get run_written (blocking_get ''b'' ''2'')) = None
   \<and> X_Consul_Index (get run_written (plain_get ''b'')) = Some 2"
  by code_simp

subsection \<open>C10: a put with no token and no CAS\<close>

text \<open>
  C10: a put that provides no lock-acquire token, no unlock token and no \<open>casIndex\<close>
  always returns true and stores the new value and flags, whatever the key's existing
  entry is, and also when it is held by a session.
\<close>

theorem put_plain_always_succeeds:
  assumes "acquire r = None" and "release r = None" and "cas r = None"
  shows "fst (put s r) = Inr True
       \<and> (\<exists>e. kv_get (kv (snd (put s r))) (put_key r) = Some e
              \<and> kvalue e = text_body r
              \<and> flags e = parseInt (case flags_q r of None \<Rightarrow> ''0''
                                     | Some f \<Rightarrow> if f = [] then ''0'' else f))"
proof -
  have ok: "fst (put s r) = Inr True"
    using assms by (simp add: put_True_iff js_or_def truthy_def check_session_def check_cas_def)
  have "flags (stored s r) = parseInt (case flags_q r of None \<Rightarrow> ''0''
                                     | Some f \<Rightarrow> if f = [] then ''0'' else f)"
    by (auto simp: stored_def js_or_def truthy_def split: option.splits)
  with ok put_True_entry [OF ok] show ?thesis by (simp add: stored_def)
qed

theorem put_plain_always_succeeds_witness:
  "acquire ((plain_put ''a'' ''2'')\<lparr> flags_q := Some ''42'' \<rparr>) = None
   \<and> release ((plain_put ''a'' ''2'')\<lparr> flags_q := Some ''42'' \<rparr>) = None
   \<and> cas ((plain_put ''a'' ''2'')\<lparr> flags_q := Some ''42'' \<rparr>) = None
   \<and> map_option session (kv_get (kv (run_locked ''delete'')) ''a'') = Some (Some ''S1'')
   \<and> fst (put (run_locked ''delete'') ((plain_put ''a'' ''2'')\<lparr> flags_q := Some ''42'' \<rparr>))
       = Inr True
   \<and> (\<exists>e. kv_get (kv (snd (put (run_locked ''delete'')
                 ((plain_put ''a'' ''2'')\<lparr> flags_q := Some ''42'' \<rparr>)))) ''a'' = Some e
          \<and> kvalue e = ''2'' \<and> flags e = Num 42)"
proof -
  have h1: "acquire ((plain_put ''a'' ''2'')\<lparr> flags_q := Some ''42'' \<rparr>) = None"
    by (simp add: plain_put_def)
  have h2: "release ((plain_put ''a'' ''2'')\<lparr> flags_q := Some ''42'' \<rparr>) = None"
    by (simp add: plain_put_def)
  have h3: "cas ((plain_put ''a'' ''2'')\<lparr> flags_q := Some ''42'' \<rparr>) = None"
    by (simp add: plain_put_def)
  have held: "map_option session (kv_get (kv (run_locked ''delete'')) ''a'') = Some (Some ''S1'')"
    by code_simp
  have p: "parseInt ''42'' = Num 42" by code_simp
  from put_plain_always_succeeds [OF h1 h2 h3, of "run_locked ''delete''"] h1 h2 h3 held p
  show ?thesis by (simp add: plain_put_def)
qed

end
